theory Spec2Isabelle
  imports Complex_Main "HOL-Library.Multiset" "HOL-Library.Product_Lexorder"
begin

section \<open>JavaScript values used by the action\<close>

text \<open>
  A JavaScript number is a finite value, \<open>NaN\<close> or one of the two infinities. Finite values
  are modelled as exact rationals: the counters of a coverage report are integers, on which
  double arithmetic is exact up to \<open>2 ^ 53\<close>; the rounding of a quotient to the nearest double
  and the negative zero are not modelled.
\<close>

datatype jsnum = NaN | Fin rat | PosInf | NegInf

definition num :: "int \<Rightarrow> jsnum" where
  "num n = Fin (of_int n)"

fun js_neg :: "jsnum \<Rightarrow> jsnum" where
  "js_neg NaN = NaN"
| "js_neg (Fin a) = Fin (- a)"
| "js_neg PosInf = NegInf"
| "js_neg NegInf = PosInf"

fun js_add :: "jsnum \<Rightarrow> jsnum \<Rightarrow> jsnum" where
  "js_add NaN y = NaN"
| "js_add x NaN = NaN"
| "js_add (Fin a) (Fin b) = Fin (a + b)"
| "js_add PosInf NegInf = NaN"
| "js_add NegInf PosInf = NaN"
| "js_add PosInf y = PosInf"
| "js_add NegInf y = NegInf"
| "js_add (Fin a) y = y"

definition js_sub :: "jsnum \<Rightarrow> jsnum \<Rightarrow> jsnum" where
  "js_sub x y = js_add x (js_neg y)"

text \<open>The sign of a number: \<open>1\<close>, \<open>0\<close> or \<open>-1\<close>; \<open>NaN\<close> has none.\<close>

fun js_sign :: "jsnum \<Rightarrow> int option" where
  "js_sign NaN = None"
| "js_sign (Fin a) = Some (if a < 0 then - 1 else if a = 0 then 0 else 1)"
| "js_sign PosInf = Some 1"
| "js_sign NegInf = Some (- 1)"

definition signed_inf :: "int \<Rightarrow> jsnum" where
  "signed_inf s = (if s = 0 then NaN else if s < 0 then NegInf else PosInf)"

fun js_mul :: "jsnum \<Rightarrow> jsnum \<Rightarrow> jsnum" where
  "js_mul NaN y = NaN"
| "js_mul x NaN = NaN"
| "js_mul (Fin a) (Fin b) = Fin (a * b)"
| "js_mul x y = signed_inf (the (js_sign x) * the (js_sign y))"

text \<open>
  Division never raises in JavaScript: a zero denominator gives an infinity, or \<open>NaN\<close> for
  \<open>0 / 0\<close>.
\<close>

fun js_div :: "jsnum \<Rightarrow> jsnum \<Rightarrow> jsnum" where
  "js_div NaN y = NaN"
| "js_div x NaN = NaN"
| "js_div (Fin a) (Fin b) =
     (if b = 0 then (if a = 0 then NaN else if a < 0 then NegInf else PosInf)
      else Fin (a / b))"
| "js_div (Fin a) y = Fin 0"
| "js_div x (Fin b) = (if b < 0 then js_neg x else x)"
| "js_div x y = NaN"

fun js_lt :: "jsnum \<Rightarrow> jsnum \<Rightarrow> bool" where
  "js_lt NaN y = False"
| "js_lt x NaN = False"
| "js_lt (Fin a) (Fin b) = (a < b)"
| "js_lt x NegInf = False"
| "js_lt PosInf y = False"
| "js_lt x y = True"

definition js_gt :: "jsnum \<Rightarrow> jsnum \<Rightarrow> bool" where
  "js_gt x y = js_lt y x"

definition js_ge :: "jsnum \<Rightarrow> jsnum \<Rightarrow> bool" where
  "js_ge x y = (x \<noteq> NaN \<and> y \<noteq> NaN \<and> \<not> js_lt x y)"

definition js_strict_eq :: "jsnum \<Rightarrow> jsnum \<Rightarrow> bool" where
  "js_strict_eq x y = (x \<noteq> NaN \<and> x = y)"

text \<open>\<open>x || 0\<close> on a number: \<open>NaN\<close> and zero are falsy.\<close>

definition js_or_zero :: "jsnum \<Rightarrow> jsnum" where
  "js_or_zero x = (if x = NaN \<or> x = Fin 0 then Fin 0 else x)"

subsection \<open>Strings\<close>

text \<open>
  A string is the sequence of the bytes of its UTF-8 encoding. Every string the action
  searches for or splits at is ASCII, so \<open>startsWith\<close>, \<open>split\<close>, \<open>substring\<close> and
  \<open>includes\<close> act on the bytes as they act on the UTF-16 code units.
\<close>

definition newline :: char where
  "newline = CHR 0x0A"

definition startsWith :: "string \<Rightarrow> string \<Rightarrow> bool" where
  "startsWith s p = (take (length p) s = p)"

definition substring :: "nat \<Rightarrow> string \<Rightarrow> string" where
  "substring n s = drop n s"

fun includes_str :: "string \<Rightarrow> string \<Rightarrow> bool" where
  "includes_str [] p = (p = [])"
| "includes_str (c # s) p = (startsWith (c # s) p \<or> includes_str s p)"

fun split :: "char \<Rightarrow> string \<Rightarrow> string list" where
  "split sep [] = [[]]"
| "split sep (c # s) =
     (if c = sep then [] # split sep s
      else (case split sep s of [] \<Rightarrow> [[c]] | l # ls \<Rightarrow> (c # l) # ls))"

fun join :: "string \<Rightarrow> string list \<Rightarrow> string" where
  "join sep [] = []"
| "join sep [l] = l"
| "join sep (l # ls) = l @ sep @ join sep ls"

subsection \<open>\<open>parseInt(s, 10)\<close>\<close>

text \<open>
  ECMAScript's \<open>parseInt\<close> with radix 10: leading white space is skipped, an optional sign is
  read, and the longest run of decimal digits that follows is the value. Whatever comes
  after the digits is ignored; with no digit at all the result is \<open>NaN\<close>. Nothing is raised.
  The white space is that of \<open>StrWhiteSpaceChar\<close>, each character in its UTF-8 encoding.
  The value is the exact integer; JavaScript rounds it to a double above \<open>2 ^ 53\<close>.
\<close>

definition whiteSpace :: "string list" where
  "whiteSpace =
     [[CHR 0x09], [CHR 0x0A], [CHR 0x0B], [CHR 0x0C], [CHR 0x0D], [CHR 0x20],
      [CHR 0xC2, CHR 0xA0], [CHR 0xE1, CHR 0x9A, CHR 0x80],
      [CHR 0xE2, CHR 0x80, CHR 0x80], [CHR 0xE2, CHR 0x80, CHR 0x81],
      [CHR 0xE2, CHR 0x80, CHR 0x82], [CHR 0xE2, CHR 0x80, CHR 0x83],
      [CHR 0xE2, CHR 0x80, CHR 0x84], [CHR 0xE2, CHR 0x80, CHR 0x85],
      [CHR 0xE2, CHR 0x80, CHR 0x86], [CHR 0xE2, CHR 0x80, CHR 0x87],
      [CHR 0xE2, CHR 0x80, CHR 0x88], [CHR 0xE2, CHR 0x80, CHR 0x89],
      [CHR 0xE2, CHR 0x80, CHR 0x8A], [CHR 0xE2, CHR 0x80, CHR 0xA8],
      [CHR 0xE2, CHR 0x80, CHR 0xA9], [CHR 0xE2, CHR 0x80, CHR 0xAF],
      [CHR 0xE2, CHR 0x81, CHR 0x9F], [CHR 0xE3, CHR 0x80, CHR 0x80],
      [CHR 0xEF, CHR 0xBB, CHR 0xBF]]"

definition leadingMatch :: "string list \<Rightarrow> string \<Rightarrow> nat" where
  "leadingMatch ws s = (case find (startsWith s) ws of None \<Rightarrow> 0 | Some w \<Rightarrow> length w)"

function dropLeading :: "string list \<Rightarrow> string \<Rightarrow> string" where
  "dropLeading ws s =
     (if leadingMatch ws s = 0 \<or> s = [] then s
      else dropLeading ws (drop (leadingMatch ws s) s))"
  by pat_completeness auto
termination
  by (relation "measure (\<lambda>(ws, s). length s)") auto

definition trimStart :: "string \<Rightarrow> string" where
  "trimStart s = dropLeading whiteSpace s"

definition trimEnd :: "string \<Rightarrow> string" where
  "trimEnd s = rev (dropLeading (map rev whiteSpace) (rev s))"

definition trim :: "string \<Rightarrow> string" where
  "trim s = trimEnd (trimStart s)"

definition isDigit :: "char \<Rightarrow> bool" where
  "isDigit c = (48 \<le> (of_char c :: nat) \<and> (of_char c :: nat) \<le> 57)"

definition digitValue :: "char \<Rightarrow> nat" where
  "digitValue c = of_char c - 48"

definition digitsValue :: "string \<Rightarrow> nat" where
  "digitsValue z = foldl (\<lambda>a c. 10 * a + digitValue c) 0 z"

definition stripSign :: "string \<Rightarrow> string" where
  "stripSign S = (if startsWith S ''+'' \<or> startsWith S ''-'' then drop 1 S else S)"

definition parseInt10 :: "string \<Rightarrow> jsnum" where
  "parseInt10 s =
     (let S = trimStart s;
          negative = startsWith S ''-'';
          Z = takeWhile isDigit (stripSign S)
      in if Z = [] then NaN
         else if negative then num (- int (digitsValue Z))
         else num (int (digitsValue Z)))"

subsection \<open>Paths\<close>

text \<open>
  \<open>path.resolve\<close> and \<open>path.relative\<close> are Node built-ins; they are modelled here in their
  POSIX form. \<open>pcwd\<close> is \<open>process.cwd()\<close>, which Node reads when no argument is absolute; it
  is an absolute path. \<open>resolve\<close> walks its arguments from the right until one is absolute,
  then normalises: empty and \<open>.\<close> segments go, a \<open>..\<close> segment removes the segment before it
  (and is dropped at the root). \<open>relative\<close> resolves both paths, removes their common leading
  segments, and climbs with one \<open>..\<close> for each segment left of the base.
\<close>

fun normalizeSegments :: "string list \<Rightarrow> string list \<Rightarrow> string list" where
  "normalizeSegments res [] = rev res"
| "normalizeSegments res (s # ss) =
     (if s = [] \<or> s = ''.'' then normalizeSegments res ss
      else if s = ''..'' then normalizeSegments (tl res) ss
      else normalizeSegments (s # res) ss)"

definition normalizeString :: "string \<Rightarrow> string" where
  "normalizeString p = join ''/'' (normalizeSegments [] (split (CHR ''/'') p))"

fun resolvePaths :: "string \<Rightarrow> string list \<Rightarrow> string \<Rightarrow> string" where
  "resolvePaths pcwd [] resolved = pcwd @ ''/'' @ resolved"
| "resolvePaths pcwd (p # ps) resolved =
     (if p = [] then resolvePaths pcwd ps resolved
      else if startsWith p ''/'' then p @ ''/'' @ resolved
      else resolvePaths pcwd ps (p @ ''/'' @ resolved))"

definition resolve :: "string \<Rightarrow> string list \<Rightarrow> string" where
  "resolve pcwd args = ''/'' @ normalizeString (resolvePaths pcwd (rev args) [])"

fun dropCommon :: "string list \<Rightarrow> string list \<Rightarrow> string list \<times> string list" where
  "dropCommon (a # as) (b # bs) = (if a = b then dropCommon as bs else (a # as, b # bs))"
| "dropCommon as bs = (as, bs)"

definition segments :: "string \<Rightarrow> string list" where
  "segments p = filter (\<lambda>s. s \<noteq> []) (split (CHR ''/'') p)"

definition relative :: "string \<Rightarrow> string \<Rightarrow> string \<Rightarrow> string" where
  "relative pcwd base target =
     (case dropCommon (segments (resolve pcwd [base])) (segments (resolve pcwd [target])) of
        (up, down) \<Rightarrow> join ''/'' (map (\<lambda>_. ''..'') up @ down))"

section \<open>The report parser\<close>

text \<open>
  A record of the report is \<open>{ file, lines: { found, hit } }\<close> (\<open>file\<close> is \<open>file_path\<close> here). The counters are JavaScript
  numbers: \<open>parseInt\<close> may give \<open>NaN\<close> or a negative value.
\<close>

record line_counts =
  found :: jsnum
  hit :: jsnum

record file_coverage =
  file_path :: string
  lines :: line_counts

text \<open>
  The loop of \<open>parseLcovFile\<close> keeps the records pushed so far and \<open>currentFile\<close>, which is
  \<open>null\<close> (\<open>None\<close>) when no record is open. \<open>parseLine\<close> is one iteration of the loop.
\<close>

type_synonym parser_state = "file_coverage list \<times> file_coverage option"

fun parseLine :: "string \<Rightarrow> parser_state \<Rightarrow> string \<Rightarrow> parser_state" where
  "parseLine pcwd (files, currentFile) line =
     (if startsWith line ''SF:'' then
        (let filePath = substring 3 line;
             absolutePath = resolve pcwd [pcwd, filePath];
             relativePath = relative pcwd pcwd absolutePath
         in (files, Some \<lparr>file_path = relativePath, lines = \<lparr>found = num 0, hit = num 0\<rparr>\<rparr>))
      else if startsWith line ''LF:'' \<and> currentFile \<noteq> None then
        (files, map_option
           (\<lambda>c. c\<lparr>lines := (lines c)\<lparr>found := parseInt10 (substring 3 line)\<rparr>\<rparr>) currentFile)
      else if startsWith line ''LH:'' \<and> currentFile \<noteq> None then
        (files, map_option
           (\<lambda>c. c\<lparr>lines := (lines c)\<lparr>hit := parseInt10 (substring 3 line)\<rparr>\<rparr>) currentFile)
      else if line = ''end_of_record'' \<and> currentFile \<noteq> None then
        (files @ [the currentFile], None)
      else (files, currentFile))"

definition parseLines :: "string \<Rightarrow> string list \<Rightarrow> parser_state" where
  "parseLines pcwd ls = foldl (parseLine pcwd) ([], None) ls"

definition parseLcovText :: "string \<Rightarrow> string \<Rightarrow> file_coverage list" where
  "parseLcovText pcwd content = fst (parseLines pcwd (split newline content))"

text \<open>
  An exception is a value: its message and its stack trace. \<open>readFileSync\<close> raises when the
  file is not there; the file system is a map from paths to contents.
\<close>

datatype error = Error (message: string) (stack: string)

definition existsSync :: "(string \<rightharpoonup> string) \<Rightarrow> string \<Rightarrow> bool" where
  "existsSync fs p = (fs p \<noteq> None)"

definition readFileSync :: "(string \<rightharpoonup> string) \<Rightarrow> string \<Rightarrow> error + string" where
  "readFileSync fs p =
     (case fs p of
        None \<Rightarrow> Inl (Error (''ENOENT: no such file or directory, open '' @ p) [])
      | Some content \<Rightarrow> Inr content)"

definition parseLcovFile ::
  "(string \<rightharpoonup> string) \<Rightarrow> string \<Rightarrow> string \<Rightarrow> error + file_coverage list" where
  "parseLcovFile fs pcwd filePath =
     (case readFileSync fs filePath of
        Inl e \<Rightarrow> Inl e
      | Inr content \<Rightarrow> Inr (parseLcovText pcwd content))"

section \<open>The coverage aggregator\<close>

definition calculatePercentage :: "jsnum \<Rightarrow> jsnum \<Rightarrow> jsnum" where
  "calculatePercentage h f =
     (if js_gt f (num 0) then js_mul (js_div h f) (num 100) else num 0)"

text \<open>
  The accumulator of the \<open>reduce\<close> is \<open>{ found, hit, files }\<close>; the aggregate returned adds
  \<open>percentage\<close> to it. The filter is \<open>null\<close> (\<open>None\<close>) or a \<open>Set\<close> of paths.
\<close>

record totals = line_counts +
  files :: "file_coverage list"

record coverage = totals +
  percentage :: jsnum

definition addFile :: "totals \<Rightarrow> file_coverage \<Rightarrow> totals" where
  "addFile acc f =
     acc\<lparr>found := js_add (found acc) (found (lines f)),
         hit := js_add (hit acc) (hit (lines f)),
         files := files acc @ [f]\<rparr>"

definition calculateCoverage :: "file_coverage list \<Rightarrow> string set option \<Rightarrow> coverage" where
  "calculateCoverage cov changedFiles =
     (let filtered =
            (if changedFiles \<noteq> None \<and> the changedFiles \<noteq> {}
             then filter (\<lambda>f. file_path f \<in> the changedFiles) cov
             else cov)
      in if length filtered = 0
         then \<lparr>found = num 0, hit = num 0, files = [], percentage = num 0\<rparr>
         else
           (let total = foldl addFile \<lparr>found = num 0, hit = num 0, files = []\<rparr> filtered
            in \<lparr>found = found total, hit = hit total, files = files total,
                percentage = calculatePercentage (hit total) (found total)\<rparr>))"

section \<open>The report renderer\<close>

text \<open>
  The conversions of a number to text are JavaScript built-ins that work on the double:
  \<open>toFixed(1)\<close>, \<open>toLocaleString()\<close> and the conversion inside a template literal. They are
  parameters of the renderer.
\<close>

record formatting =
  toFixed1 :: "jsnum \<Rightarrow> string"
  toLocaleString :: "jsnum \<Rightarrow> string"
  toString :: "jsnum \<Rightarrow> string"

definition LCOV_COMMENT_MARKER :: string where
  "LCOV_COMMENT_MARKER = ''<!-- lcov-comment -->''"

definition MAX_FILES_PER_PAGE :: nat where
  "MAX_FILES_PER_PAGE = 100"

text \<open>The two glyphs, U+2705 and U+274C, in UTF-8.\<close>

definition check_mark :: string where
  "check_mark = [CHR 0xE2, CHR 0x9C, CHR 0x85]"

definition cross_mark :: string where
  "cross_mark = [CHR 0xE2, CHR 0x9D, CHR 0x8C]"

definition thresholdLine :: "formatting \<Rightarrow> coverage \<Rightarrow> jsnum \<Rightarrow> string" where
  "thresholdLine fmt cov minimum =
     (let pct = toFixed1 fmt (percentage cov);
          passed = js_ge (percentage cov) minimum;
          emoji = (if passed then check_mark else cross_mark)
      in if js_gt minimum (num 0)
         then emoji @ '' **'' @ pct @ ''%** of '' @ toLocaleString fmt (found cov)
              @ '' lines (threshold: '' @ toString fmt minimum @ ''%)''
         else ''**'' @ pct @ ''%** of '' @ toLocaleString fmt (found cov) @ '' lines'')"

definition buildAllFilesSection :: "formatting \<Rightarrow> coverage \<Rightarrow> jsnum \<Rightarrow> string" where
  "buildAllFilesSection fmt cov minimum =
     (if js_strict_eq (found cov) (num 0)
      then ''### All files'' @ [newline, newline] @ ''No coverage data available''
      else ''### All files'' @ [newline, newline] @ thresholdLine fmt cov minimum)"

text \<open>The comparison function handed to \<open>sort\<close> in \<open>buildChangedFilesSection\<close>.\<close>

definition compareFiles :: "file_coverage \<Rightarrow> file_coverage \<Rightarrow> jsnum" where
  "compareFiles a b =
     (if js_strict_eq (found (lines a)) (num 0) \<and> js_strict_eq (found (lines b)) (num 0)
      then num 0
      else if js_strict_eq (found (lines a)) (num 0) then num 1
      else if js_strict_eq (found (lines b)) (num 0) then num (- 1)
      else
        (let aPct = calculatePercentage (hit (lines a)) (found (lines a));
             bPct = calculatePercentage (hit (lines b)) (found (lines b))
         in if \<not> js_strict_eq aPct bPct then js_sub aPct bPct
            else js_sub (found (lines b)) (found (lines a))))"

text \<open>
  \<open>Array.prototype.sort\<close> with a comparison function is a stable sort: \<open>a\<close> stays before \<open>b\<close>
  unless the function returns a number above zero for \<open>(a, b)\<close>; a \<open>NaN\<close> result counts as
  zero. For a consistent comparison function every stable sort returns the same array; the
  model is the insertion sort.
\<close>

fun insertSorted :: "('a \<Rightarrow> 'a \<Rightarrow> jsnum) \<Rightarrow> 'a \<Rightarrow> 'a list \<Rightarrow> 'a list" where
  "insertSorted cmp x [] = [x]"
| "insertSorted cmp x (y # ys) =
     (if js_gt (cmp x y) (num 0) then y # insertSorted cmp x ys else x # y # ys)"

definition sortBy :: "('a \<Rightarrow> 'a \<Rightarrow> jsnum) \<Rightarrow> 'a list \<Rightarrow> 'a list" where
  "sortBy cmp xs = foldr (insertSorted cmp) xs []"

definition sortedFiles :: "coverage \<Rightarrow> file_coverage list" where
  "sortedFiles cov = sortBy compareFiles (files cov)"

definition tableRow :: "formatting \<Rightarrow> file_coverage \<Rightarrow> string" where
  "tableRow fmt f =
     (let fileName = (if startsWith (file_path f) ''/'' then drop 1 (file_path f) else file_path f)
      in if js_strict_eq (found (lines f)) (num 0) then ''| `'' @ fileName @ ''` | - |''
         else
           (let pct = toFixed1 fmt (calculatePercentage (hit (lines f)) (found (lines f)))
            in ''| `'' @ fileName @ ''` | '' @ pct @ ''% of '' @ toString fmt (found (lines f))
               @ '' lines |''))"

definition buildEnhancedTable :: "formatting \<Rightarrow> file_coverage list \<Rightarrow> string" where
  "buildEnhancedTable fmt fs =
     (if length fs = 0 then []
      else ''| File | Coverage |'' @ [newline] @ ''| --- | --- |'' @ [newline]
           @ join [newline] (map (tableRow fmt) fs))"

definition buildChangedFilesSection :: "formatting \<Rightarrow> coverage \<Rightarrow> jsnum \<Rightarrow> string" where
  "buildChangedFilesSection fmt cov minimum =
     (if js_strict_eq (found cov) (num 0)
      then ''### Changed files'' @ [newline, newline] @ ''Changed files not in coverage''
      else ''### Changed files'' @ [newline, newline] @ thresholdLine fmt cov minimum
           @ [newline, newline] @ buildEnhancedTable fmt (sortedFiles cov))"

definition buildPerformanceSection :: "string \<Rightarrow> string" where
  "buildPerformanceSection summary =
     (if summary = [] then []
      else [newline, newline] @ ''### Test performance'' @ [newline, newline] @ ''```''
           @ [newline] @ summary @ [newline] @ ''```'')"

definition buildComment ::
  "formatting \<Rightarrow> coverage \<Rightarrow> coverage \<Rightarrow> jsnum \<Rightarrow> jsnum \<Rightarrow> bool \<Rightarrow> bool \<Rightarrow> string option
     \<Rightarrow> string" where
  "buildComment fmt allCov changedCov allMin changedMin passed hasChanged testSummary =
     (let hasThresholds = (js_gt allMin (num 0) \<or> js_gt changedMin (num 0));
          emoji = (if hasThresholds then (if passed then check_mark else cross_mark) else []);
          header = ''## '' @ emoji @ '' LCOV report'';
          allSection = buildAllFilesSection fmt allCov allMin;
          changedSection =
            (if hasChanged then buildChangedFilesSection fmt changedCov changedMin
             else ''### Changed files'' @ [newline, newline] @ ''> No files changed'');
          performanceSection =
            (case testSummary of
               None \<Rightarrow> []
             | Some summary \<Rightarrow> if summary = [] then [] else buildPerformanceSection summary)
      in LCOV_COMMENT_MARKER @ [newline] @ header @ [newline, newline] @ allSection
         @ [newline, newline] @ changedSection @ performanceSection)"

section \<open>The comment reconciler\<close>

text \<open>
  Modelled from the spec: the comment store of the hosting platform, which the action calls
  and does not implement: "a comment store, supporting list (paginated, first page only),
  create, and update by identifier". The store holds the comments of the change in listing
  order; a created comment gets a fresh identifier and is listed last. A comment may have
  no body. A call to a store that is out of reach raises the error of the outage.
\<close>

record comment =
  comment_id :: nat
  body :: "string option"

record comment_store =
  comments :: "comment list"
  next_id :: nat
  outage :: "error option"

definition listComments :: "comment_store \<Rightarrow> nat \<Rightarrow> error + comment list" where
  "listComments st per_page =
     (case outage st of Some e \<Rightarrow> Inl e | None \<Rightarrow> Inr (take per_page (comments st)))"

definition updateComment :: "comment_store \<Rightarrow> nat \<Rightarrow> string \<Rightarrow> error + comment_store" where
  "updateComment st cid b =
     (case outage st of
        Some e \<Rightarrow> Inl e
      | None \<Rightarrow>
          if cid \<in> comment_id ` set (comments st)
          then Inr (st\<lparr>comments :=
                 map (\<lambda>c. if comment_id c = cid then c\<lparr>body := Some b\<rparr> else c) (comments st)\<rparr>)
          else Inl (Error ''Not Found'' []))"

definition createComment :: "comment_store \<Rightarrow> string \<Rightarrow> error + comment_store" where
  "createComment st b =
     (case outage st of
        Some e \<Rightarrow> Inl e
      | None \<Rightarrow>
          Inr (st\<lparr>comments := comments st @ [\<lparr>comment_id = next_id st, body = Some b\<rparr>],
                  next_id := Suc (next_id st)\<rparr>))"

text \<open>\<open>c.body?.includes(LCOV_COMMENT_MARKER)\<close>: a comment without a body does not match.\<close>

definition hasMarker :: "comment \<Rightarrow> bool" where
  "hasMarker c =
     (case body c of None \<Rightarrow> False | Some b \<Rightarrow> includes_str b LCOV_COMMENT_MARKER)"

definition postComment :: "comment_store \<Rightarrow> string \<Rightarrow> error + comment_store" where
  "postComment st doc =
     (case listComments st MAX_FILES_PER_PAGE of
        Inl e \<Rightarrow> Inl e
      | Inr cs \<Rightarrow>
          (case find hasMarker cs of
             Some existing \<Rightarrow> updateComment st (comment_id existing) doc
           | None \<Rightarrow> createComment st doc))"

section \<open>The run\<close>

text \<open>
  What a run reads from outside: the inputs of the action (\<open>core.getInput\<close> with its
  \<open>required\<close> flag, which raises when a required input is missing), \<open>parseFloat\<close>, the number
  formatting, the file system, \<open>process.cwd()\<close>, the name of the event, the answer of the
  platform to the comparison of the two commits (the file names of its first page, or an
  error), the comment store, and the stack trace an \<open>Error\<close> created by the run records.
\<close>

record world =
  getInput :: "string \<Rightarrow> bool \<Rightarrow> error + string"
  parseFloat :: "string \<Rightarrow> jsnum"
  number_format :: formatting
  file_system :: "string \<rightharpoonup> string"
  process_cwd :: string
  eventName :: string
  compareCommits :: "error + string list"
  store :: comment_store
  stack_trace :: "string \<Rightarrow> string"

text \<open>
  What a run leaves behind: the messages given to \<open>core.setFailed\<close>, in order (each call
  sets the failing exit status), and the comment store.
\<close>

record outcome =
  failures :: "string list"
  final_store :: comment_store

definition bind_error :: "error + 'a \<Rightarrow> ('a \<Rightarrow> error + 'b) \<Rightarrow> error + 'b" where
  "bind_error m k = (case m of Inl e \<Rightarrow> Inl e | Inr x \<Rightarrow> k x)"

definition getChangedFiles :: "world \<Rightarrow> error + string set" where
  "getChangedFiles w =
     (if eventName w \<noteq> ''pull_request'' then Inr {}
      else bind_error (compareCommits w) (\<lambda>filenames. Inr (set filenames)))"

text \<open>What the run has in hand when it reaches the aggregation (lines 11 to 25).\<close>

record prepared =
  allFilesMin :: jsnum
  changedFilesMin :: jsnum
  parsed :: "file_coverage list"
  changedFiles :: "string set"
  testSummary :: "string option"

definition prepare :: "world \<Rightarrow> error + prepared" where
  "prepare w =
     bind_error (getInput w ''lcov-file'' True) (\<lambda>lcovFile.
     bind_error (getInput w ''github-token'' True) (\<lambda>githubToken.
     bind_error (getInput w ''test-summary-file'' False) (\<lambda>testSummaryFile.
     bind_error (getInput w ''all-files-minimum-coverage'' False) (\<lambda>allInput.
     bind_error (getInput w ''changed-files-minimum-coverage'' False) (\<lambda>changedInput.
       if \<not> existsSync (file_system w) lcovFile
       then Inl (Error (''LCOV file not found: '' @ lcovFile)
                   (stack_trace w (''LCOV file not found: '' @ lcovFile)))
       else
         bind_error (parseLcovFile (file_system w) (process_cwd w) lcovFile) (\<lambda>cov.
         bind_error (getChangedFiles w) (\<lambda>changed.
         bind_error
           (if testSummaryFile \<noteq> [] \<and> existsSync (file_system w) testSummaryFile
            then bind_error (readFileSync (file_system w) testSummaryFile)
                   (\<lambda>content. Inr (Some (trim content)))
            else Inr None) (\<lambda>summary.
           Inr \<lparr>allFilesMin = js_or_zero (parseFloat w allInput),
                changedFilesMin = js_or_zero (parseFloat w changedInput),
                parsed = cov, changedFiles = changed, testSummary = summary\<rparr>))))))))"

definition run :: "world \<Rightarrow> outcome" where
  "run w =
     (case prepare w of
        Inl e \<Rightarrow>
          \<lparr>failures = [''Action failed: '' @ message e @ [newline] @ stack e],
           final_store = store w\<rparr>
      | Inr p \<Rightarrow>
          (let allCoverage = calculateCoverage (parsed p) None;
               changedCoverage = calculateCoverage (parsed p) (Some (changedFiles p));
               allPassed = js_ge (percentage allCoverage) (allFilesMin p);
               changedPassed =
                 (changedFiles p = {} \<or> js_ge (percentage changedCoverage) (changedFilesMin p));
               passed = (allPassed \<and> changedPassed);
               failed = (if \<not> passed then [''Coverage is below the minimum threshold'']
                         else [])
           in if eventName w = ''pull_request''
              then
                (case postComment (store w)
                        (buildComment (number_format w) allCoverage changedCoverage
                           (allFilesMin p) (changedFilesMin p) passed (changedFiles p \<noteq> {})
                           (testSummary p)) of
                   Inl e \<Rightarrow>
                     \<lparr>failures = failed @ [''Action failed: '' @ message e @ [newline] @ stack e],
                      final_store = store w\<rparr>
                 | Inr st \<Rightarrow> \<lparr>failures = failed, final_store = st\<rparr>)
              else \<lparr>failures = failed, final_store = store w\<rparr>))"

text \<open>The exit status of the process fails when \<open>core.setFailed\<close> was called.\<close>

definition exit_failure :: "outcome \<Rightarrow> bool" where
  "exit_failure out = (failures out \<noteq> [])"

section \<open>Notions of the specification\<close>

text \<open>The sum of a sequence of numbers, as the specification means it.\<close>

primrec js_sum :: "jsnum list \<Rightarrow> jsnum" where
  "js_sum [] = num 0"
| "js_sum (x # xs) = js_add x (js_sum xs)"



text \<open>
  A path segment that normalisation keeps, and a sequence of such segments with no
  separator inside.
\<close>

definition plain :: "string \<Rightarrow> bool" where
  "plain s = (s \<noteq> [] \<and> s \<noteq> ''.'' \<and> s \<noteq> ''..'')"

definition clean :: "string list \<Rightarrow> bool" where
  "clean N = (\<forall>s \<in> set N. plain s \<and> CHR ''/'' \<notin> set s)"


definition misses_minimum :: "prepared \<Rightarrow> bool" where
  "misses_minimum p =
     (\<not> js_ge (percentage (calculateCoverage (parsed p) None)) (allFilesMin p) \<or>
      (changedFiles p \<noteq> {} \<and>
       \<not> js_ge (percentage (calculateCoverage (parsed p) (Some (changedFiles p))))
           (changedFilesMin p)))"










text \<open>
  The words of the reconciliation law. The identifiers of a store are those the platform
  gives: no two comments share one, and a new one is above them all. \<open>reconcile_twice\<close> is
  two runs of \<open>postComment\<close> in succession on the same change. A document bears the marker
  when the search of \<open>postComment\<close> finds it there; to update in place is to give the
  marker-bearing comments the new body and leave every comment where it is.
\<close>

definition store_ok :: "comment_store \<Rightarrow> bool" where
  "store_ok st =
     (distinct (map comment_id (comments st)) \<and>
      (\<forall>c \<in> set (comments st). comment_id c < next_id st))"

definition reconcile_twice :: "comment_store \<Rightarrow> string \<Rightarrow> string \<Rightarrow> error + comment_store" where
  "reconcile_twice st d1 d2 = bind_error (postComment st d1) (\<lambda>st1. postComment st1 d2)"

definition bears_marker :: "string \<Rightarrow> bool" where
  "bears_marker d = includes_str d LCOV_COMMENT_MARKER"

definition rewrite_marked :: "string \<Rightarrow> comment \<Rightarrow> comment" where
  "rewrite_marked d c = (if hasMarker c then c\<lparr>body := Some d\<rparr> else c)"

section \<open>Example inputs\<close>

text \<open>A record with integer counters.\<close>

definition entry :: "string \<Rightarrow> int \<Rightarrow> int \<Rightarrow> file_coverage" where
  "entry p f h = \<lparr>file_path = p, lines = \<lparr>found = num f, hit = num h\<rparr>\<rparr>"


text \<open>
  A report with an \<open>LF:\<close> line before any \<open>SF:\<close> line and an \<open>LH:\<close> line after the record
  was closed.
\<close>

definition orphan_report :: string where
  "orphan_report =
     ''LF:7'' @ [newline] @ ''SF:x'' @ [newline] @ ''LF:10'' @ [newline] @ ''end_of_record''
       @ [newline] @ ''LH:oops''"

text \<open>
  A run on a push, with no threshold configured (the two inputs are empty and \<open>parseFloat\<close>
  gives \<open>NaN\<close>), on a given file system.
\<close>

definition example_format :: formatting where
  "example_format =
     \<lparr>toFixed1 = (\<lambda>_. ''50.0''), toLocaleString = (\<lambda>_. ''20''), toString = (\<lambda>_. ''20'')\<rparr>"

definition example_world :: "(string \<rightharpoonup> string) \<Rightarrow> world" where
  "example_world files_on_disk =
     \<lparr>getInput = (\<lambda>name required.
         Inr (if name = ''lcov-file'' then ''cover/lcov.info''
              else if name = ''github-token'' then ''token'' else [])),
      parseFloat = (\<lambda>s. NaN),
      number_format = example_format,
      file_system = files_on_disk,
      process_cwd = ''/home/runner/work/app'',
      eventName = ''push'',
      compareCommits = Inr [],
      store = \<lparr>comments = [], next_id = 1, outage = None\<rparr>,
      stack_trace = (\<lambda>_. [])\<rparr>"


text \<open>A report with one file, half covered.\<close>

definition half_covered_report :: string where
  "half_covered_report =
     ''SF:x'' @ [newline] @ ''LF:10'' @ [newline] @ ''LH:5'' @ [newline] @ ''end_of_record''"

text \<open>
  A run on a pull request whose changed files must be covered to 80 percent, with the
  file names the platform reports as changed and the comments already on the change.
\<close>

definition pull_request_world :: "string \<Rightarrow> string list \<Rightarrow> comment list \<Rightarrow> world" where
  "pull_request_world content changed cs =
     (example_world [''cover/lcov.info'' \<mapsto> content])
       \<lparr>getInput := (\<lambda>name required.
          Inr (if name = ''lcov-file'' then ''cover/lcov.info''
               else if name = ''github-token'' then ''token''
               else if name = ''changed-files-minimum-coverage'' then ''80'' else [])),
        parseFloat := (\<lambda>s. if s = ''80'' then num 80 else NaN),
        eventName := ''pull_request'',
        compareCommits := Inr changed,
        store := \<lparr>comments = cs, next_id = Suc (length cs), outage = None\<rparr>\<rparr>"

text \<open>A changed-files aggregate with six records, two of them unmeasured.\<close>

definition six_files :: coverage where
  "six_files =
     calculateCoverage
       [entry ''a.ex'' 10 10, entry ''b.ex'' 10 0, entry ''z.ex'' 0 0, entry ''c.ex'' 20 0,
        entry ''y.ex'' 0 0, entry ''d.ex'' 4 1] None"

text \<open>Two rendered documents.\<close>

definition sample_document :: string where
  "sample_document =
     buildComment example_format six_files six_files (num 0) (num 0) True True None"

definition later_document :: string where
  "later_document =
     buildComment example_format six_files six_files (num 80) (num 0) False True (Some ''3 tests'')"

text \<open>
  A change on which two comments bear the marker, as after two runs that both listed the
  comments before either created its own.
\<close>

definition two_marker_store :: comment_store where
  "two_marker_store =
     \<lparr>comments =
        [\<lparr>comment_id = 1, body = Some (LCOV_COMMENT_MARKER @ [newline] @ ''## LCOV report'')\<rparr>,
         \<lparr>comment_id = 2, body = Some (LCOV_COMMENT_MARKER @ [newline] @ ''## LCOV report'')\<rparr>],
      next_id = 3, outage = None\<rparr>"

text \<open>A change with two comments of its participants, one of them without a body.\<close>

definition discussion_store :: comment_store where
  "discussion_store =
     \<lparr>comments = [\<lparr>comment_id = 1, body = Some ''Looks good''\<rparr>, \<lparr>comment_id = 2, body = None\<rparr>],
      next_id = 3, outage = None\<rparr>"

section \<open>Arithmetic of the numbers\<close>




lemma js_sum_num: "js_sum (map num ns) = num (sum_list ns)"
  by (induction ns) (simp_all add: num_def)


lemma js_gt_zero_not_ge: "js_gt m (num 0) \<Longrightarrow> \<not> js_ge (num 0) m"
  by (simp add: js_gt_def js_ge_def)


lemma js_div_zero_not_finite: "js_div x (num 0) \<noteq> Fin r"
  by (cases x) (simp_all add: num_def)

section \<open>Splitting, joining and paths\<close>

lemma split_not_Nil: "split sep s \<noteq> []"
  by (induction s) (auto split: list.splits)

lemma split_append_sep: "split sep (a @ sep # b) = split sep a @ split sep b"
proof (induction a)
  case Nil
  show ?case by simp
next
  case (Cons c a)
  show ?case
  proof (cases "c = sep")
    case True
    with Cons show ?thesis by simp
  next
    case False
    obtain l ls where "split sep a = l # ls"
      using split_not_Nil [of sep a] by (cases "split sep a") auto
    with False Cons show ?thesis by simp
  qed
qed

lemma split_no_sep: "sep \<notin> set s \<Longrightarrow> split sep s = [s]"
  by (induction s) auto

lemma split_segments_free: "l \<in> set (split sep s) \<Longrightarrow> sep \<notin> set l"
proof (induction s arbitrary: l)
  case Nil
  then show ?case by simp
next
  case (Cons c s)
  show ?case
  proof (cases "c = sep")
    case True
    with Cons show ?thesis by auto
  next
    case False
    obtain m ms where ms: "split sep s = m # ms"
      using split_not_Nil [of sep s] by (cases "split sep s") auto
    with False Cons.prems have "l = c # m \<or> l \<in> set ms" by auto
    then show ?thesis
    proof
      assume "l = c # m"
      moreover have "sep \<notin> set m" using Cons.IH [of m] ms by simp
      ultimately show ?thesis using False by auto
    next
      assume "l \<in> set ms"
      then show ?thesis using Cons.IH [of l] ms by simp
    qed
  qed
qed

lemma split_join:
  "ls \<noteq> [] \<Longrightarrow> \<forall>l \<in> set ls. sep \<notin> set l \<Longrightarrow> split sep (join [sep] ls) = ls"
proof (induction ls)
  case Nil
  then show ?case by simp
next
  case (Cons l ls)
  show ?case
  proof (cases ls)
    case Nil
    with Cons.prems show ?thesis by (simp add: split_no_sep)
  next
    case (Cons k ks)
    then have "join [sep] (l # ls) = l @ sep # join [sep] ls"
      by simp
    moreover have "split sep (join [sep] ls) = ls"
      using Cons.IH Cons.prems Cons by simp
    moreover have "split sep l = [l]"
      using Cons.prems by (simp add: split_no_sep)
    ultimately show ?thesis
      by (simp add: split_append_sep)
  qed
qed

lemma normalizeSegments_append:
  "normalizeSegments res (xs @ ys) = normalizeSegments (rev (normalizeSegments res xs)) ys"
  by (induction xs arbitrary: res) simp_all

lemma normalizeSegments_plain:
  "\<forall>s \<in> set xs. plain s \<Longrightarrow> normalizeSegments res xs = rev res @ xs"
  by (induction xs arbitrary: res) (simp_all add: plain_def)

lemma normalizeSegments_set:
  "s \<in> set (normalizeSegments res xs) \<Longrightarrow> s \<in> set res \<or> (s \<in> set xs \<and> plain s)"
proof (induction xs arbitrary: res)
  case Nil
  then show ?case by simp
next
  case (Cons x xs)
  consider (skip) "x = [] \<or> x = ''.''" | (up) "x = ''..''" | (name) "plain x"
    by (auto simp: plain_def)
  then show ?case
  proof cases
    case skip
    with Cons.prems have "s \<in> set (normalizeSegments res xs)" by auto
    from Cons.IH [OF this] show ?thesis by auto
  next
    case up
    with Cons.prems have "s \<in> set (normalizeSegments (tl res) xs)" by simp
    from Cons.IH [OF this] show ?thesis
      by (cases res) auto
  next
    case name
    with Cons.prems have "s \<in> set (normalizeSegments (x # res) xs)"
      by (simp add: plain_def)
    from Cons.IH [OF this] name show ?thesis by auto
  qed
qed

lemma dropCommon_prefix: "dropCommon xs (xs @ ys) = ([], ys)"
  by (induction xs) simp_all

lemma segments_resolved:
  assumes "\<forall>s \<in> set N. plain s \<and> CHR ''/'' \<notin> set s"
  shows "segments (''/'' @ join ''/'' N) = N"
proof (cases "N = []")
  case True
  then show ?thesis by (simp add: segments_def)
next
  case False
  then have "split (CHR ''/'') (join ''/'' N) = N"
    using assms split_join [of N "CHR ''/''"] by simp
  moreover have "filter (\<lambda>s. s \<noteq> []) N = N"
    using assms by (simp add: plain_def filter_id_conv)
  ultimately show ?thesis
    by (simp add: segments_def)
qed

lemma clean_normalized: "clean (normalizeSegments [] (split (CHR ''/'') p))"
  unfolding clean_def
proof
  fix s
  assume "s \<in> set (normalizeSegments [] (split (CHR ''/'') p))"
  from normalizeSegments_set [OF this]
  show "plain s \<and> CHR ''/'' \<notin> set s"
    using split_segments_free [of s "CHR ''/''" p] by simp
qed

lemma normalizeSegments_trailing:
  "normalizeSegments [] (xs @ [[]]) = normalizeSegments [] xs"
  by (simp add: normalizeSegments_append)

lemma resolve_cwd:
  assumes "startsWith pcwd ''/''"
  shows "resolve pcwd [pcwd] = ''/'' @ join ''/'' (normalizeSegments [] (split (CHR ''/'') pcwd))"
proof -
  have "pcwd \<noteq> []" using assms by (auto simp: startsWith_def)
  then have "resolvePaths pcwd [pcwd] [] = pcwd @ ''/''"
    using assms by simp
  moreover have "split (CHR ''/'') (pcwd @ ''/'') = split (CHR ''/'') pcwd @ [[]]"
    using split_append_sep [of "CHR ''/''" pcwd "[]"] by simp
  ultimately show ?thesis
    by (simp add: resolve_def normalizeString_def normalizeSegments_trailing)
qed

lemma resolve_child:
  assumes "startsWith pcwd ''/''" and "plain n" and "CHR ''/'' \<notin> set n"
  shows "resolve pcwd [pcwd, n] =
           ''/'' @ join ''/'' (normalizeSegments [] (split (CHR ''/'') pcwd) @ [n])"
proof -
  have ne: "pcwd \<noteq> []" using assms(1) by (auto simp: startsWith_def)
  have n: "n \<noteq> []" "\<not> startsWith n ''/''"
    using assms(2,3) by (cases n; auto simp: plain_def startsWith_def)+
  then have "resolvePaths pcwd (rev [pcwd, n]) [] = pcwd @ ''/'' @ n @ ''/''"
    using assms(1) ne by simp
  moreover have "split (CHR ''/'') (pcwd @ ''/'' @ n @ ''/'') = split (CHR ''/'') pcwd @ [n, []]"
    using split_append_sep [of "CHR ''/''" pcwd "n @ ''/''"]
      split_append_sep [of "CHR ''/''" n "[]"] assms(3)
    by (simp add: split_no_sep)
  moreover have "normalizeSegments [] (split (CHR ''/'') pcwd @ [n, []]) =
      normalizeSegments [] (split (CHR ''/'') pcwd) @ [n]"
    using assms(2) by (simp add: normalizeSegments_append plain_def)
  ultimately show ?thesis
    by (simp add: resolve_def normalizeString_def)
qed

lemma resolve_resolved:
  assumes "clean M"
  shows "resolve pcwd [''/'' @ join ''/'' M] = ''/'' @ join ''/'' M"
proof -
  have "resolvePaths pcwd (rev [''/'' @ join ''/'' M]) [] = ''/'' @ join ''/'' M @ ''/''"
    by (simp add: startsWith_def)
  moreover have "normalizeSegments [] (split (CHR ''/'') (''/'' @ join ''/'' M @ ''/'')) = M"
  proof (cases "M = []")
    case True
    then show ?thesis by simp
  next
    case False
    then have "split (CHR ''/'') (join ''/'' M) = M"
      using assms split_join [of M "CHR ''/''"] by (simp add: clean_def)
    then have "split (CHR ''/'') (''/'' @ join ''/'' M @ ''/'') = [] # M @ [[]]"
      using split_append_sep [of "CHR ''/''" "join ''/'' M" "[]"] by simp
    moreover have "normalizeSegments [] M = M"
      using assms normalizeSegments_plain [of M "[]"] by (simp add: clean_def)
    ultimately show ?thesis
      by (simp add: normalizeSegments_trailing)
  qed
  ultimately show ?thesis
    by (simp add: resolve_def normalizeString_def)
qed

lemma relative_child:
  assumes "startsWith pcwd ''/''" and "plain n" and "CHR ''/'' \<notin> set n"
  shows "relative pcwd pcwd (resolve pcwd [pcwd, n]) = n"
proof -
  define N where "N = normalizeSegments [] (split (CHR ''/'') pcwd)"
  have N: "clean N" unfolding N_def by (rule clean_normalized)
  then have Nn: "clean (N @ [n])" using assms(2,3) by (simp add: clean_def)
  have base: "segments (resolve pcwd [pcwd]) = N"
    using resolve_cwd [OF assms(1)] segments_resolved [of N] N
    by (simp add: N_def clean_def)
  have "resolve pcwd [pcwd, n] = ''/'' @ join ''/'' (N @ [n])"
    using resolve_child [OF assms] by (simp add: N_def)
  then have target: "segments (resolve pcwd [resolve pcwd [pcwd, n]]) = N @ [n]"
    using resolve_resolved [OF Nn, of pcwd] segments_resolved [of "N @ [n]"] Nn
    by (simp add: clean_def)
  show ?thesis
    by (simp add: relative_def base target dropCommon_prefix)
qed

section \<open>Properties of the parser\<close>

lemma parseLine_SF:
  "startsWith line ''SF:'' \<Longrightarrow>
   parseLine pcwd (fs, cur) line =
     (fs, Some \<lparr>file_path = relative pcwd pcwd (resolve pcwd [pcwd, substring 3 line]),
                lines = \<lparr>found = num 0, hit = num 0\<rparr>\<rparr>)"
  by simp

lemma parseLine_LF:
  "parseLine pcwd (fs, Some c) (''LF:'' @ field) =
     (fs, Some (c\<lparr>lines := (lines c)\<lparr>found := parseInt10 field\<rparr>\<rparr>))"
  by (simp add: startsWith_def substring_def)


lemma parseLine_end:
  "parseLine pcwd (fs, Some c) ''end_of_record'' = (fs @ [c], None)"
  by (simp add: startsWith_def)

lemma parseLine_closed:
  "startsWith line ''LF:'' \<or> startsWith line ''LH:'' \<Longrightarrow>
   parseLine pcwd (fs, None) line = (fs, None)"
  by (auto simp: startsWith_def)

lemma parseLines_append:
  "parseLines pcwd (xs @ ys) = foldl (parseLine pcwd) (parseLines pcwd xs) ys"
  by (simp add: parseLines_def)

lemma parseInt10_10: "parseInt10 ''10'' = num 10"
  by (simp add: parseInt10_def trimStart_def leadingMatch_def whiteSpace_def startsWith_def
      stripSign_def isDigit_def digitsValue_def digitValue_def)

lemma split_three_lines:
  "split newline (''SF:x'' @ [newline] @ ''LF:10'' @ [newline] @ ''end_of_record'') =
     [''SF:x'', ''LF:10'', ''end_of_record'']"
  by (simp add: newline_def)

text \<open>
  C7. The text \<open>SF:x\<close>, \<open>LF:10\<close>, \<open>end_of_record\<close> on three lines, with no \<open>LH:\<close> line, parses
  to exactly one record \<open>{file: x, linesFound: 10, linesHit: 0}\<close>: the counter with no line
  keeps the \<open>0\<close> it got when the record was opened. The working directory is any absolute
  path.
\<close>

theorem parse_without_LH:
  assumes "startsWith pcwd ''/''"
  shows "parseLcovText pcwd (''SF:x'' @ [newline] @ ''LF:10'' @ [newline] @ ''end_of_record'') =
     [\<lparr>file_path = ''x'', lines = \<lparr>found = num 10, hit = num 0\<rparr>\<rparr>]"
proof -
  have x: "relative pcwd pcwd (resolve pcwd [pcwd, ''x'']) = ''x''"
    using relative_child [OF assms, of "''x''"] by (simp add: plain_def)
  have "parseLine pcwd ([], None) ''SF:x'' =
      ([], Some \<lparr>file_path = ''x'', lines = \<lparr>found = num 0, hit = num 0\<rparr>\<rparr>)"
    using parseLine_SF [of "''SF:x''" pcwd "[]" None] x
    by (simp add: startsWith_def substring_def)
  moreover have
    "parseLine pcwd ([], Some \<lparr>file_path = ''x'', lines = \<lparr>found = num 0, hit = num 0\<rparr>\<rparr>)
       ''LF:10'' =
     ([], Some \<lparr>file_path = ''x'', lines = \<lparr>found = num 10, hit = num 0\<rparr>\<rparr>)"
    using parseLine_LF [of pcwd "[]" _ "''10''"] by (simp add: parseInt10_10)
  ultimately show ?thesis
    unfolding parseLcovText_def parseLines_def split_three_lines
    by (simp add: parseLine_end del: parseLine.simps)
qed

theorem parse_without_LH_witness:
  "startsWith ''/home/runner/work/app'' ''/'' \<and>
   parseLcovText ''/home/runner/work/app''
       (''SF:x'' @ [newline] @ ''LF:10'' @ [newline] @ ''end_of_record'') =
     [\<lparr>file_path = ''x'', lines = \<lparr>found = num 10, hit = num 0\<rparr>\<rparr>]"
  using parse_without_LH [of "''/home/runner/work/app''"] by (simp add: startsWith_def)

text \<open>
  C9. An \<open>LF:\<close> or \<open>LH:\<close> line met while no record is open (before any \<open>SF:\<close> line, or after
  an \<open>end_of_record\<close> cleared the current record) is ignored: parsing raises no error, and
  the report is the report of the text without that line.
\<close>

theorem orphan_count_line_ignored:
  assumes content: "fs p = Some content"
    and ls: "split newline content = before @ l # after"
    and closed: "snd (parseLines pcwd before) = None"
    and l: "startsWith l ''LF:'' \<or> startsWith l ''LH:''"
  shows "parseLcovFile fs pcwd p = Inr (fst (parseLines pcwd (before @ after)))"
proof -
  obtain recs where st: "parseLines pcwd before = (recs, None)"
    using closed by (cases "parseLines pcwd before") simp
  have "parseLines pcwd (before @ l # after) =
      foldl (parseLine pcwd) (parseLine pcwd (recs, None) l) after"
    by (simp add: parseLines_append st del: parseLine.simps)
  also have "\<dots> = foldl (parseLine pcwd) (recs, None) after"
    by (simp only: parseLine_closed [OF l])
  also have "\<dots> = parseLines pcwd (before @ after)"
    by (simp add: parseLines_append st)
  finally show ?thesis
    using content ls by (simp add: parseLcovFile_def readFileSync_def parseLcovText_def)
qed

theorem orphan_count_line_ignored_witness:
  "split newline orphan_report =
     [''LF:7'', ''SF:x'', ''LF:10'', ''end_of_record''] @ ''LH:oops'' # [] \<and>
   snd (parseLines ''/w'' [''LF:7'', ''SF:x'', ''LF:10'', ''end_of_record'']) = None \<and>
   startsWith ''LH:oops'' ''LH:'' \<and>
   parseLcovFile [''lcov.info'' \<mapsto> orphan_report] ''/w'' ''lcov.info'' =
     Inr [entry ''x'' 10 0]"
proof -
  have content: "[''lcov.info'' \<mapsto> orphan_report] ''lcov.info'' = Some orphan_report"
    by simp
  have ls: "split newline orphan_report =
      [''LF:7'', ''SF:x'', ''LF:10'', ''end_of_record''] @ ''LH:oops'' # []"
    by code_simp
  have closed: "snd (parseLines ''/w'' [''LF:7'', ''SF:x'', ''LF:10'', ''end_of_record'']) = None"
    by code_simp
  have l: "startsWith ''LH:oops'' ''LF:'' \<or> startsWith ''LH:oops'' ''LH:''"
    by code_simp
  have report: "fst (parseLines ''/w'' ([''LF:7'', ''SF:x'', ''LF:10'', ''end_of_record''] @ [])) =
      [entry ''x'' 10 0]"
    by code_simp
  have "startsWith ''LH:oops'' ''LH:''"
    by code_simp
  with ls closed report
    orphan_count_line_ignored [where fs = "[''lcov.info'' \<mapsto> orphan_report]"
      and p = "''lcov.info''" and content = orphan_report and pcwd = "''/w''"
      and before = "[''LF:7'', ''SF:x'', ''LF:10'', ''end_of_record'']"
      and l = "''LH:oops''" and after = "[]", OF content ls closed l]
  show ?thesis
    by simp
qed




section \<open>Properties of the aggregator\<close>







lemma calculateCoverage_no_match:
  assumes "changed \<noteq> {}" and "\<forall>f \<in> set cov. file_path f \<notin> changed"
  shows "calculateCoverage cov (Some changed) =
           \<lparr>found = num 0, hit = num 0, files = [], percentage = num 0\<rparr>"
proof -
  have "filter (\<lambda>f. file_path f \<in> changed) cov = []"
    using assms(2) by (simp add: filter_empty_conv)
  with assms(1) show ?thesis
    by (simp add: calculateCoverage_def)
qed

text \<open>
  C5. With a filter that is not empty and none of whose members is the path of a record of
  the report, the aggregate is exactly the empty one, \<open>{0, 0, 0, []}\<close>; it is a value, not
  an error.
\<close>

theorem calculateCoverage_empty_match:
  "changed \<noteq> {} \<Longrightarrow> \<forall>f \<in> set cov. file_path f \<notin> changed \<Longrightarrow>
   calculateCoverage cov (Some changed) =
     \<lparr>found = num 0, hit = num 0, files = [], percentage = num 0\<rparr>"
  by (rule calculateCoverage_no_match)

theorem calculateCoverage_empty_match_witness:
  "{''lib/c.ex''} \<noteq> ({} :: string set) \<and>
   ''lib/c.ex'' \<notin> set (map file_path [entry ''a.ex'' 10 10, entry ''b.ex'' 10 0]) \<and>
   calculateCoverage [entry ''a.ex'' 10 10, entry ''b.ex'' 10 0] (Some {''lib/c.ex''}) =
     \<lparr>found = num 0, hit = num 0, files = [], percentage = num 0\<rparr>"
proof -
  have ne: "{''lib/c.ex''} \<noteq> ({} :: string set)"
    by simp
  have no: "\<forall>f \<in> set [entry ''a.ex'' 10 10, entry ''b.ex'' 10 0]. file_path f \<notin> {''lib/c.ex''}"
    by (simp add: entry_def)
  from ne no calculateCoverage_empty_match [OF ne no] show ?thesis
    by (simp add: entry_def)
qed

section \<open>The order of the changed-files table\<close>









lemma buildEnhancedTable_rows:
  "fs \<noteq> [] \<Longrightarrow>
   buildEnhancedTable fmt fs =
     ''| File | Coverage |'' @ [newline] @ ''| --- | --- |'' @ [newline]
       @ join [newline] (map (tableRow fmt) fs)"
  by (simp add: buildEnhancedTable_def)



section \<open>Reconciliation of the comment\<close>

lemma includes_str_prefix: "includes_str (p @ s) p"
proof (cases "p @ s")
  case Nil
  then show ?thesis by simp
next
  case (Cons a list)
  have "startsWith (p @ s) p" by (simp add: startsWith_def)
  with Cons show ?thesis by simp
qed

lemma buildComment_bears_marker:
  "bears_marker (buildComment fmt allCov changedCov allMin changedMin passed hasChanged summary)"
  unfolding bears_marker_def buildComment_def Let_def append_assoc
  by (rule includes_str_prefix)

lemma hasMarker_rewrite: "bears_marker d \<Longrightarrow> hasMarker (rewrite_marked d c) = hasMarker c"
  by (simp add: rewrite_marked_def hasMarker_def bears_marker_def)

lemma rewrite_twice:
  "bears_marker d1 \<Longrightarrow> rewrite_marked d2 (rewrite_marked d1 c) = rewrite_marked d2 c"
  by (simp add: rewrite_marked_def hasMarker_def bears_marker_def)

lemma comment_id_rewrite: "comment_id (rewrite_marked d c) = comment_id c"
  by (simp add: rewrite_marked_def)

lemma filter_rewrite:
  "bears_marker d \<Longrightarrow>
   filter hasMarker (map (rewrite_marked d) cs) = map (rewrite_marked d) (filter hasMarker cs)"
  by (induction cs) (simp_all add: hasMarker_rewrite)

lemma only_marked:
  assumes "filter hasMarker cs = [c]" and "x \<in> set cs" and "hasMarker x"
  shows "x = c"
proof -
  from assms(2,3) have "x \<in> set (filter hasMarker cs)" by simp
  with assms(1) show ?thesis by simp
qed

lemma postComment_update:
  assumes ok: "store_ok st" and up: "outage st = None"
    and page: "length (comments st) \<le> MAX_FILES_PER_PAGE"
    and one: "filter hasMarker (comments st) = [c]"
  shows "postComment st d = Inr (st\<lparr>comments := map (rewrite_marked d) (comments st)\<rparr>)"
proof -
  have c: "c \<in> set (comments st)" "hasMarker c"
  proof -
    have "c \<in> set (filter hasMarker (comments st))" using one by simp
    then show "c \<in> set (comments st)" "hasMarker c" by simp_all
  qed
  have listed: "take MAX_FILES_PER_PAGE (comments st) = comments st"
    using page by simp
  obtain e where e: "find hasMarker (comments st) = Some e"
    using c by (cases "find hasMarker (comments st)") (auto simp: find_None_iff)
  then have "e \<in> set (comments st)" "hasMarker e"
    by (auto simp: find_Some_iff)
  then have "e = c" by (rule only_marked [OF one])
  have same: "map (\<lambda>x. if comment_id x = comment_id c then x\<lparr>body := Some d\<rparr> else x) (comments st)
      = map (rewrite_marked d) (comments st)"
  proof (rule map_cong [OF refl])
    fix x assume x: "x \<in> set (comments st)"
    have "comment_id x = comment_id c \<longleftrightarrow> hasMarker x"
    proof
      assume "comment_id x = comment_id c"
      with ok x c(1) have "x = c"
        by (simp add: store_ok_def distinct_map inj_on_def)
      with c(2) show "hasMarker x" by simp
    next
      assume "hasMarker x"
      with x have "x = c" by (rule only_marked [OF one])
      then show "comment_id x = comment_id c" by simp
    qed
    then show "(if comment_id x = comment_id c then x\<lparr>body := Some d\<rparr> else x) = rewrite_marked d x"
      by (simp add: rewrite_marked_def)
  qed
  show ?thesis
    using up c(1) e \<open>e = c\<close>
    by (simp add: postComment_def listComments_def listed updateComment_def same)
qed

lemma postComment_create:
  assumes up: "outage st = None" and none: "filter hasMarker (comments st) = []"
  shows "postComment st d =
     Inr (st\<lparr>comments := comments st @ [\<lparr>comment_id = next_id st, body = Some d\<rparr>],
             next_id := Suc (next_id st)\<rparr>)"
proof -
  have "find hasMarker (take MAX_FILES_PER_PAGE (comments st)) = None"
    using none by (auto simp: find_None_iff filter_empty_conv dest: in_set_takeD)
  with up show ?thesis
    by (simp add: postComment_def listComments_def createComment_def)
qed

lemma store_after_update:
  assumes "store_ok st"
  shows "store_ok (st\<lparr>comments := map (rewrite_marked d) (comments st)\<rparr>)"
  using assms by (simp add: store_ok_def comment_id_rewrite comp_def)

text \<open>
  C8, as the code has it. Take a store that answers, whose comments all fit on the first
  listed page with room for one more, and on which at most one comment bears the marker.
  Two runs of the reconciliation in succession, each with a document that bears the marker
  (every rendered document does: \<open>buildComment_bears_marker\<close>), leave exactly one comment
  bearing the marker, and its body is the second document. A comment that bore the marker
  is updated in place; a comment is created, once, only when none did.
\<close>

theorem reconcile_twice_one_comment:
  assumes ok: "store_ok st" and up: "outage st = None"
    and page: "length (comments st) < MAX_FILES_PER_PAGE"
    and one: "length (filter hasMarker (comments st)) \<le> 1"
    and d1: "bears_marker d1" and d2: "bears_marker d2"
  shows "\<exists>st2 c. reconcile_twice st d1 d2 = Inr st2 \<and>
           filter hasMarker (comments st2) = [c] \<and> body c = Some d2 \<and>
           comments st2 =
             map (rewrite_marked d2) (comments st) @
             (if filter hasMarker (comments st) = []
              then [\<lparr>comment_id = next_id st, body = Some d2\<rparr>] else [])"
proof (cases "filter hasMarker (comments st)")
  case Nil
  define n where "n = \<lparr>comment_id = next_id st, body = Some d1\<rparr>"
  define st1 where "st1 = st\<lparr>comments := comments st @ [n], next_id := Suc (next_id st)\<rparr>"
  have first: "postComment st d1 = Inr st1"
    using postComment_create [OF up Nil, of d1] by (simp add: st1_def n_def)
  have n: "hasMarker n" "rewrite_marked d2 n = \<lparr>comment_id = next_id st, body = Some d2\<rparr>"
    using d1 by (simp_all add: n_def hasMarker_def bears_marker_def rewrite_marked_def)
  have ok1: "store_ok st1"
    using ok by (auto simp: store_ok_def st1_def n_def)
  have one1: "filter hasMarker (comments st1) = [n]"
    using Nil n(1) by (simp add: st1_def)
  have "length (comments st1) \<le> MAX_FILES_PER_PAGE" "outage st1 = None"
    using page up by (simp_all add: st1_def)
  from postComment_update [OF ok1 this(2) this(1) one1, of d2]
  have second: "postComment st1 d2 = Inr (st1\<lparr>comments := map (rewrite_marked d2) (comments st1)\<rparr>)" .
  show ?thesis
  proof (intro exI conjI)
    show "reconcile_twice st d1 d2 = Inr (st1\<lparr>comments := map (rewrite_marked d2) (comments st1)\<rparr>)"
      by (simp add: reconcile_twice_def bind_error_def first second)
    show "filter hasMarker (comments (st1\<lparr>comments := map (rewrite_marked d2) (comments st1)\<rparr>))
        = [rewrite_marked d2 n]"
      using one1 by (simp add: filter_rewrite [OF d2])
    show "body (rewrite_marked d2 n) = Some d2"
      by (simp add: n(2))
    show "comments (st1\<lparr>comments := map (rewrite_marked d2) (comments st1)\<rparr>) =
        map (rewrite_marked d2) (comments st) @
        (if filter hasMarker (comments st) = []
         then [\<lparr>comment_id = next_id st, body = Some d2\<rparr>] else [])"
      using Nil n(2) by (simp add: st1_def)
  qed
next
  case (Cons c cs)
  with one have only: "filter hasMarker (comments st) = [c]"
    by simp
  then have c: "hasMarker c"
    by (metis Cons_eq_filterD)
  define st1 where "st1 = st\<lparr>comments := map (rewrite_marked d1) (comments st)\<rparr>"
  have first: "postComment st d1 = Inr st1"
    using postComment_update [OF ok up _ only, of d1] page by (simp add: st1_def)
  have ok1: "store_ok st1"
    unfolding st1_def using ok by (rule store_after_update)
  have one1: "filter hasMarker (comments st1) = [rewrite_marked d1 c]"
    using only by (simp add: st1_def filter_rewrite [OF d1])
  have "length (comments st1) \<le> MAX_FILES_PER_PAGE" "outage st1 = None"
    using page up by (simp_all add: st1_def)
  from postComment_update [OF ok1 this(2) this(1) one1, of d2]
  have second: "postComment st1 d2 = Inr (st1\<lparr>comments := map (rewrite_marked d2) (comments st1)\<rparr>)" .
  have twice: "map (rewrite_marked d2) (comments st1) = map (rewrite_marked d2) (comments st)"
    by (simp add: st1_def rewrite_twice [OF d1] comp_def)
  show ?thesis
  proof (intro exI conjI)
    show "reconcile_twice st d1 d2 = Inr (st1\<lparr>comments := map (rewrite_marked d2) (comments st1)\<rparr>)"
      by (simp add: reconcile_twice_def bind_error_def first second)
    show "filter hasMarker (comments (st1\<lparr>comments := map (rewrite_marked d2) (comments st1)\<rparr>))
        = [rewrite_marked d2 c]"
      using only by (simp add: twice filter_rewrite [OF d2])
    show "body (rewrite_marked d2 c) = Some d2"
      using c by (simp add: rewrite_marked_def)
    show "comments (st1\<lparr>comments := map (rewrite_marked d2) (comments st1)\<rparr>) =
        map (rewrite_marked d2) (comments st) @
        (if filter hasMarker (comments st) = []
         then [\<lparr>comment_id = next_id st, body = Some d2\<rparr>] else [])"
      using only by (simp add: twice)
  qed
qed

theorem reconcile_twice_one_comment_witness:
  "store_ok discussion_store \<and> outage discussion_store = None \<and>
   length (comments discussion_store) < MAX_FILES_PER_PAGE \<and>
   length (filter hasMarker (comments discussion_store)) \<le> 1 \<and>
   bears_marker sample_document \<and> bears_marker later_document \<and>
   reconcile_twice discussion_store sample_document later_document =
     Inr \<lparr>comments =
            [\<lparr>comment_id = 1, body = Some ''Looks good''\<rparr>, \<lparr>comment_id = 2, body = None\<rparr>,
             \<lparr>comment_id = 3, body = Some later_document\<rparr>],
          next_id = 4, outage = None\<rparr> \<and>
   length (filter hasMarker
     [\<lparr>comment_id = 1, body = Some ''Looks good''\<rparr>, \<lparr>comment_id = 2, body = None\<rparr>,
      \<lparr>comment_id = 3, body = Some later_document\<rparr>]) = 1"
proof -
  have ok: "store_ok discussion_store"
    by code_simp
  have up: "outage discussion_store = None"
    by code_simp
  have page: "length (comments discussion_store) < MAX_FILES_PER_PAGE"
    by code_simp
  have one: "length (filter hasMarker (comments discussion_store)) \<le> 1"
    by code_simp
  have d1: "bears_marker sample_document"
    unfolding sample_document_def by (rule buildComment_bears_marker)
  have d2: "bears_marker later_document"
    unfolding later_document_def by (rule buildComment_bears_marker)
  have twice: "reconcile_twice discussion_store sample_document later_document =
     Inr \<lparr>comments =
            [\<lparr>comment_id = 1, body = Some ''Looks good''\<rparr>, \<lparr>comment_id = 2, body = None\<rparr>,
             \<lparr>comment_id = 3, body = Some later_document\<rparr>],
          next_id = 4, outage = None\<rparr>"
    by code_simp
  from reconcile_twice_one_comment [OF ok up page one d1 d2]
  obtain st2 c where st2: "reconcile_twice discussion_store sample_document later_document = Inr st2"
    and c: "filter hasMarker (comments st2) = [c]"
    by blast
  from st2 twice have "comments st2 =
     [\<lparr>comment_id = 1, body = Some ''Looks good''\<rparr>, \<lparr>comment_id = 2, body = None\<rparr>,
      \<lparr>comment_id = 3, body = Some later_document\<rparr>]"
    by auto
  with c have "length (filter hasMarker
     [\<lparr>comment_id = 1, body = Some ''Looks good''\<rparr>, \<lparr>comment_id = 2, body = None\<rparr>,
      \<lparr>comment_id = 3, body = Some later_document\<rparr>]) = 1"
    by (metis length_Cons list.size(3) One_nat_def)
  with ok up page one d1 d2 twice show ?thesis
    by blast
qed

text \<open>
  The claim C8 as it is written fails on a store where two comments bear the marker: two
  runs update the first of them and leave the second, so two comments bear the marker
  afterwards.
\<close>

theorem two_marked_comments_stay:
  "reconcile_twice two_marker_store sample_document later_document =
     Inr (two_marker_store\<lparr>comments :=
       [\<lparr>comment_id = 1, body = Some later_document\<rparr>,
        \<lparr>comment_id = 2, body = Some (LCOV_COMMENT_MARKER @ [newline] @ ''## LCOV report'')\<rparr>]\<rparr>) \<and>
   length (filter hasMarker
       [\<lparr>comment_id = 1, body = Some later_document\<rparr>,
        \<lparr>comment_id = 2, body = Some (LCOV_COMMENT_MARKER @ [newline] @ ''## LCOV report'')\<rparr>]) = 2"
  by code_simp

section \<open>Failure of the run\<close>



lemma postComment_online:
  assumes "outage st = None"
  shows "\<exists>st'. postComment st doc = Inr st'"
proof (cases "find hasMarker (take MAX_FILES_PER_PAGE (comments st))")
  case None
  with assms show ?thesis
    by (simp add: postComment_def listComments_def createComment_def)
next
  case (Some c)
  then have "c \<in> set (comments st)"
    by (auto simp: find_Some_iff dest: in_set_takeD)
  with assms Some show ?thesis
    by (simp add: postComment_def listComments_def updateComment_def)
qed

lemma run_failures_prefix:
  assumes "prepare w = Inr p"
  shows "\<exists>rest. failures (run w) =
           (if misses_minimum p then [''Coverage is below the minimum threshold''] else []) @ rest
         \<and> (\<not> (eventName w = ''pull_request'' \<and> outage (store w) \<noteq> None) \<longrightarrow> rest = [])"
proof (cases "eventName w = ''pull_request''")
  case False
  with assms show ?thesis
    by (simp add: run_def Let_def misses_minimum_def)
next
  case True
  define doc where "doc = buildComment (number_format w) (calculateCoverage (parsed p) None)
      (calculateCoverage (parsed p) (Some (changedFiles p))) (allFilesMin p) (changedFilesMin p)
      (\<not> misses_minimum p) (changedFiles p \<noteq> {}) (testSummary p)"
  show ?thesis
  proof (cases "postComment (store w) doc")
    case (Inl e)
    have "outage (store w) \<noteq> None"
    proof
      assume "outage (store w) = None"
      from postComment_online [OF this, of doc] Inl show False by auto
    qed
    with assms True Inl show ?thesis
      by (simp add: run_def Let_def misses_minimum_def doc_def)
  next
    case (Inr st)
    with assms True show ?thesis
      by (simp add: run_def Let_def misses_minimum_def doc_def)
  qed
qed




text \<open>
  C10. When there are changed files and none of them is the path of a record of the report,
  the changed-files aggregate is the empty one, with percentage \<open>0\<close>; the changed half of
  the check compares that \<open>0\<close> with the minimum, and the run is marked failed whenever
  \<open>changed-files-minimum-coverage\<close> is above \<open>0\<close>.
\<close>

theorem unmatched_changed_files_fail:
  assumes "prepare w = Inr p"
    and "changedFiles p \<noteq> {}"
    and "\<forall>f \<in> set (parsed p). file_path f \<notin> changedFiles p"
  shows "calculateCoverage (parsed p) (Some (changedFiles p)) =
           \<lparr>found = num 0, hit = num 0, files = [], percentage = num 0\<rparr> \<and>
         js_ge (percentage (calculateCoverage (parsed p) (Some (changedFiles p))))
             (changedFilesMin p) =
           js_ge (num 0) (changedFilesMin p) \<and>
         (js_gt (changedFilesMin p) (num 0) \<longrightarrow>
            ''Coverage is below the minimum threshold'' \<in> set (failures (run w)) \<and>
            exit_failure (run w))"
proof -
  have empty: "calculateCoverage (parsed p) (Some (changedFiles p)) =
           \<lparr>found = num 0, hit = num 0, files = [], percentage = num 0\<rparr>"
    using assms(2,3) by (rule calculateCoverage_no_match)
  have "js_gt (changedFilesMin p) (num 0) \<Longrightarrow> misses_minimum p"
    using assms(2) by (simp add: misses_minimum_def empty js_gt_zero_not_ge)
  with run_failures_prefix [OF assms(1)] empty show ?thesis
    by (auto simp: exit_failure_def)
qed

theorem unmatched_changed_files_fail_witness:
  "prepare (pull_request_world half_covered_report [''lib/other.ex''] []) =
     Inr \<lparr>allFilesMin = num 0, changedFilesMin = num 80, parsed = [entry ''x'' 10 5],
          changedFiles = {''lib/other.ex''}, testSummary = None\<rparr> \<and>
   ''lib/other.ex'' \<notin> set (map file_path [entry ''x'' 10 5]) \<and>
   js_gt (num 80) (num 0) \<and>
   calculateCoverage [entry ''x'' 10 5] (Some {''lib/other.ex''}) =
     \<lparr>found = num 0, hit = num 0, files = [], percentage = num 0\<rparr> \<and>
   ''Coverage is below the minimum threshold''
     \<in> set (failures (run (pull_request_world half_covered_report [''lib/other.ex''] [])))"
proof -
  define W where "W = pull_request_world half_covered_report [''lib/other.ex''] []"
  define P where "P = \<lparr>allFilesMin = num 0, changedFilesMin = num 80,
    parsed = [entry ''x'' 10 5], changedFiles = {''lib/other.ex''}, testSummary = None\<rparr>"
  have p: "prepare W = Inr P"
    unfolding W_def P_def by code_simp
  have some: "changedFiles P \<noteq> {}"
    unfolding P_def by simp
  have none: "\<forall>f \<in> set (parsed P). file_path f \<notin> changedFiles P"
    unfolding P_def by (simp add: entry_def)
  have above: "js_gt (changedFilesMin P) (num 0)"
    unfolding P_def by code_simp
  from p none above unmatched_changed_files_fail [OF p some none]
  show ?thesis
    unfolding W_def P_def by (simp add: entry_def)
qed

end
